theory Spec2Isabelle
  imports Main
begin

section \<open>Host timer service\<close>

text \<open>
  The hooks talk to the host through \<^verbatim>\<open>Date.now()\<close>, \<^verbatim>\<open>setTimeout(callback, wait)\<close> and
  \<^verbatim>\<open>clearTimeout(handle)\<close>. Clock readings and waits are milliseconds, modelled as \<open>int\<close>.
  A handle records what the callback closure captured (\<open>payload\<close>), the clock reading at
  which \<^verbatim>\<open>setTimeout\<close> was called and the wait argument exactly as the code passed it.
  \<^verbatim>\<open>clearTimeout\<close> deregisters the handle; a variable that still holds it stays truthy.
\<close>

record 'p host_timer =
  payload :: 'p
  set_at :: int
  wait :: int
  cleared :: bool

definition setTimeout :: "'p \<Rightarrow> int \<Rightarrow> int \<Rightarrow> 'p host_timer" where
  "setTimeout p now w = \<lparr>payload = p, set_at = now, wait = w, cleared = False\<rparr>"

definition clearTimeout :: "'p host_timer \<Rightarrow> 'p host_timer" where
  "clearTimeout h = h\<lparr>cleared := True\<rparr>"

text \<open>
  The host treats a negative wait as 0 and runs a callback at or after its due time,
  never before, and never once the handle is cleared.
\<close>

definition due :: "'p host_timer \<Rightarrow> int" where
  "due h = set_at h + max 0 (wait h)"

definition can_fire :: "'p host_timer option \<Rightarrow> int \<Rightarrow> bool" where
  "can_fire r t = (case r of None \<Rightarrow> False | Some h \<Rightarrow> \<not> cleared h \<and> due h \<le> t)"

section \<open>Options\<close>

text \<open>
  \<^verbatim>\<open>UseDebounceOptions\<close> and \<^verbatim>\<open>UseThrottleOptions\<close> after destructuring, that is with the
  defaults already filled in. \<open>maxWait\<close> stays optional (\<^verbatim>\<open>undefined\<close> is \<open>None\<close>).
\<close>

record gate_options =
  delay :: int
  leading :: bool

record throttle_options = gate_options +
  trailing :: bool

record debounce_options = gate_options +
  maxWait :: "int option"

section \<open>useThrottleCallback\<close>

text \<open>
  The refs and the state of one \<^verbatim>\<open>useThrottleCallback\<close> instance. The wrapped function is
  kept abstract (\<open>'f\<close>); \<open>calls\<close> logs every invocation \<^verbatim>\<open>callbackRef.current(...args)\<close>,
  oldest first, as the pair of the function invoked and its arguments. The timer
  callback captures nothing that changes, so its payload is \<open>unit\<close>.
\<close>

record ('f, 'a) tc_state =
  isThrottled :: bool
  cb_lastExecutedRef :: int
  cb_timeoutRef :: "unit host_timer option"
  pendingArgsRef :: "'a option"
  callbackRef :: 'f
  calls :: "('f \<times> 'a) list"

text \<open>First render: \<^verbatim>\<open>useState(false)\<close>, \<^verbatim>\<open>useRef(0)\<close>, \<^verbatim>\<open>useRef(undefined)\<close>, \<^verbatim>\<open>useRef(callback)\<close>.\<close>

definition useThrottleCallback_init :: "'f \<Rightarrow> ('f, 'a) tc_state" where
  "useThrottleCallback_init callback =
     \<lparr>isThrottled = False, cb_lastExecutedRef = 0, cb_timeoutRef = None,
      pendingArgsRef = None, callbackRef = callback, calls = []\<rparr>"

text \<open>Every later render executes \<^verbatim>\<open>callbackRef.current = callback\<close>.\<close>

definition rerender :: "'f \<Rightarrow> ('f, 'a) tc_state \<Rightarrow> ('f, 'a) tc_state" where
  "rerender callback s = s\<lparr>callbackRef := callback\<rparr>"

definition cancel :: "('f, 'a) tc_state \<Rightarrow> ('f, 'a) tc_state" where
  "cancel s = s\<lparr>cb_timeoutRef := None, pendingArgsRef := None, isThrottled := False\<rparr>"

definition flush :: "int \<Rightarrow> ('f, 'a) tc_state \<Rightarrow> ('f, 'a) tc_state" where
  "flush now s =
     (case (cb_timeoutRef s, pendingArgsRef s) of
        (Some h, Some args) \<Rightarrow>
          s\<lparr>cb_timeoutRef := None,
            calls := calls s @ [(callbackRef s, args)],
            cb_lastExecutedRef := now,
            pendingArgsRef := None,
            isThrottled := False\<rparr>
      | _ \<Rightarrow> s)"

definition throttledCallback ::
  "throttle_options \<Rightarrow> int \<Rightarrow> 'a \<Rightarrow> ('f, 'a) tc_state \<Rightarrow> ('f, 'a) tc_state" where
  "throttledCallback opts now args s =
     (let timeSinceLastExecution = now - cb_lastExecutedRef s in
      if leading opts \<and> timeSinceLastExecution \<ge> delay opts then
        s\<lparr>calls := calls s @ [(callbackRef s, args)],
          cb_lastExecutedRef := now,
          isThrottled := False,
          cb_timeoutRef := None,
          pendingArgsRef := None\<rparr>
      else if trailing opts then
        (let remainingDelay = delay opts - timeSinceLastExecution in
         s\<lparr>pendingArgsRef := Some args,
           isThrottled := True,
           cb_timeoutRef := Some (setTimeout () now (max 0 remainingDelay))\<rparr>)
      else s)"

text \<open>
  The callback handed to \<^verbatim>\<open>setTimeout\<close> in the trailing branch; \<open>now\<close> is the clock
  reading when it runs.
\<close>

definition trailing_timeout :: "int \<Rightarrow> ('f, 'a) tc_state \<Rightarrow> ('f, 'a) tc_state" where
  "trailing_timeout now s =
     (let s1 = (case pendingArgsRef s of
                  Some args \<Rightarrow>
                    s\<lparr>calls := calls s @ [(callbackRef s, args)],
                      cb_lastExecutedRef := now,
                      pendingArgsRef := None\<rparr>
                | None \<Rightarrow> s)
      in s1\<lparr>cb_timeoutRef := None, isThrottled := False\<rparr>)"

text \<open>The host runs the registered callback at clock reading \<open>t\<close>, if it may.\<close>

definition cb_timer_fires :: "int \<Rightarrow> ('f, 'a) tc_state \<Rightarrow> ('f, 'a) tc_state" where
  "cb_timer_fires t s = (if can_fire (cb_timeoutRef s) t then trailing_timeout t s else s)"

text \<open>A trailing invocation is pending: the guard of \<^verbatim>\<open>flush\<close>.\<close>

definition cb_pending :: "('f, 'a) tc_state \<Rightarrow> bool" where
  "cb_pending s = (cb_timeoutRef s \<noteq> None \<and> pendingArgsRef s \<noteq> None)"

text \<open>
  What the refs and the state have in common between operations: a timer is registered
  exactly when arguments are pending, and exactly then \<open>isThrottled\<close> is set.
\<close>

definition cb_inv :: "('f, 'a) tc_state \<Rightarrow> bool" where
  "cb_inv s = ((cb_timeoutRef s \<noteq> None) = isThrottled s \<and>
               (pendingArgsRef s \<noteq> None) = isThrottled s)"

section \<open>useThrottle\<close>

text \<open>
  One \<^verbatim>\<open>useThrottle\<close> instance: the state \<open>throttledValue\<close> (the hook's return value)
  and its three refs. \<open>setThrottledValue_log\<close> lists the arguments of every
  \<^verbatim>\<open>setThrottledValue\<close> call, oldest first. The timer callback closes over the \<open>value\<close>
  of the effect run that created it: that is the handle's payload.
\<close>

record 'a tv_state =
  throttledValue :: 'a
  lastExecutedRef :: int
  timeoutRef :: "'a host_timer option"
  isFirstCallRef :: bool
  setThrottledValue_log :: "'a list"

definition useThrottle_init :: "'a \<Rightarrow> 'a tv_state" where
  "useThrottle_init value =
     \<lparr>throttledValue = value, lastExecutedRef = 0, timeoutRef = None,
      isFirstCallRef = True, setThrottledValue_log = []\<rparr>"

text \<open>The body of the effect, run at clock reading \<open>now\<close> with the current \<open>value\<close>.\<close>

definition throttle_effect ::
  "throttle_options \<Rightarrow> int \<Rightarrow> 'a \<Rightarrow> 'a tv_state \<Rightarrow> 'a tv_state" where
  "throttle_effect opts now value s =
     (let timeSinceLastExecution = now - lastExecutedRef s in
      if (leading opts \<and> isFirstCallRef s) \<or>
         (leading opts \<and> timeSinceLastExecution \<ge> delay opts) then
        s\<lparr>throttledValue := value,
          setThrottledValue_log := setThrottledValue_log s @ [value],
          lastExecutedRef := now,
          isFirstCallRef := False,
          timeoutRef := None\<rparr>
      else
        (let s1 = (if trailing opts then
                     (let remainingDelay = delay opts - timeSinceLastExecution in
                      s\<lparr>timeoutRef := Some (setTimeout value now remainingDelay)\<rparr>)
                   else s)
         in s1\<lparr>isFirstCallRef := False\<rparr>))"

text \<open>
  The cleanup the effect returns on its second exit: it clears the handle in
  \<open>timeoutRef\<close> and leaves the ref pointing at it. The first exit (leading edge) returns
  no cleanup, and leaves \<open>timeoutRef\<close> undefined, where this function changes nothing.
\<close>

definition throttle_cleanup :: "'a tv_state \<Rightarrow> 'a tv_state" where
  "throttle_cleanup s = s\<lparr>timeoutRef := map_option clearTimeout (timeoutRef s)\<rparr>"

text \<open>
  Mount runs the effect on the initial state. A render with a changed \<open>value\<close> runs the
  cleanup of the previous effect and then the effect again (the other dependencies are
  the options, fixed here).
\<close>

definition useThrottle_mount :: "throttle_options \<Rightarrow> int \<Rightarrow> 'a \<Rightarrow> 'a tv_state" where
  "useThrottle_mount opts now value = throttle_effect opts now value (useThrottle_init value)"

definition useThrottle_update ::
  "throttle_options \<Rightarrow> int \<Rightarrow> 'a \<Rightarrow> 'a tv_state \<Rightarrow> 'a tv_state" where
  "useThrottle_update opts now value s = throttle_effect opts now value (throttle_cleanup s)"

text \<open>The callback of the trailing timer, created with \<open>value\<close> in its closure.\<close>

definition throttle_timeout :: "'a \<Rightarrow> int \<Rightarrow> 'a tv_state \<Rightarrow> 'a tv_state" where
  "throttle_timeout value now s =
     s\<lparr>throttledValue := value,
       setThrottledValue_log := setThrottledValue_log s @ [value],
       lastExecutedRef := now,
       timeoutRef := None\<rparr>"

definition tv_timer_fires :: "int \<Rightarrow> 'a tv_state \<Rightarrow> 'a tv_state" where
  "tv_timer_fires t s =
     (case timeoutRef s of
        Some h \<Rightarrow> if can_fire (Some h) t then throttle_timeout (payload h) t s else s
      | None \<Rightarrow> s)"

section \<open>Event streams\<close>

text \<open>
  Drivers for whole scenarios: what the caller and the host do to one gate, in order.
\<close>

datatype ('f, 'a) cb_event =
  Invoke int 'a | TimerFires int | Cancel | Flush int | Render 'f

fun cb_step :: "throttle_options \<Rightarrow> ('f, 'a) tc_state \<Rightarrow> ('f, 'a) cb_event \<Rightarrow> ('f, 'a) tc_state" where
  "cb_step opts s (Invoke now args) = throttledCallback opts now args s"
| "cb_step opts s (TimerFires t) = cb_timer_fires t s"
| "cb_step opts s Cancel = cancel s"
| "cb_step opts s (Flush now) = flush now s"
| "cb_step opts s (Render callback) = rerender callback s"

definition cb_run ::
  "throttle_options \<Rightarrow> ('f, 'a) cb_event list \<Rightarrow> ('f, 'a) tc_state \<Rightarrow> ('f, 'a) tc_state" where
  "cb_run opts es s = foldl (cb_step opts) s es"

datatype 'a tv_event = Update int 'a | Fires int

fun tv_step :: "throttle_options \<Rightarrow> 'a tv_state \<Rightarrow> 'a tv_event \<Rightarrow> 'a tv_state" where
  "tv_step opts s (Update now value) = useThrottle_update opts now value s"
| "tv_step opts s (Fires t) = tv_timer_fires t s"

definition tv_run :: "throttle_options \<Rightarrow> 'a tv_event list \<Rightarrow> 'a tv_state \<Rightarrow> 'a tv_state" where
  "tv_run opts es s = foldl (tv_step opts) s es"

section \<open>useDebounce\<close>

text \<open>
  One \<^verbatim>\<open>useDebounce\<close> instance: the two pieces of state, and the timers the latest run of
  the first effect registered that have neither fired nor been cleared (in the code they
  are locals of that run, reachable only from its cleanup).
  \<open>setDebouncedValue_log\<close> lists the arguments of every \<^verbatim>\<open>setDebouncedValue\<close> call.
\<close>

record 'a db_state =
  debouncedValue :: 'a
  isFirstCall :: bool
  timer :: "'a host_timer option"
  maxWaitTimer :: "'a host_timer option"
  setDebouncedValue_log :: "'a list"

definition useDebounce_init :: "'a \<Rightarrow> 'a db_state" where
  "useDebounce_init value =
     \<lparr>debouncedValue = value, isFirstCall = True, timer = None, maxWaitTimer = None,
      setDebouncedValue_log = []\<rparr>"

text \<open>
  The first effect. \<^verbatim>\<open>maxWait && !isFirstCall\<close>: \<^verbatim>\<open>undefined\<close> and \<^verbatim>\<open>0\<close> are falsy.
\<close>

definition debounce_effect ::
  "debounce_options \<Rightarrow> int \<Rightarrow> 'a \<Rightarrow> 'a db_state \<Rightarrow> 'a db_state" where
  "debounce_effect opts now value s =
     (if leading opts \<and> isFirstCall s then
        s\<lparr>debouncedValue := value,
          setDebouncedValue_log := setDebouncedValue_log s @ [value],
          isFirstCall := False\<rparr>
      else
        s\<lparr>timer := Some (setTimeout value now (delay opts)),
          maxWaitTimer :=
            (case maxWait opts of
               Some m \<Rightarrow> if m \<noteq> 0 \<and> \<not> isFirstCall s
                         then Some (setTimeout value now m) else None
             | None \<Rightarrow> None)\<rparr>)"

text \<open>Its cleanup: \<^verbatim>\<open>clearTimeout\<close> on both timers of that run.\<close>

definition debounce_cleanup :: "'a db_state \<Rightarrow> 'a db_state" where
  "debounce_cleanup s = s\<lparr>timer := None, maxWaitTimer := None\<rparr>"

text \<open>The second effect (dependencies \<^verbatim>\<open>[value, leading]\<close>).\<close>

definition debounce_effect2 :: "debounce_options \<Rightarrow> 'a db_state \<Rightarrow> 'a db_state" where
  "debounce_effect2 opts s = (if \<not> leading opts then s\<lparr>isFirstCall := False\<rparr> else s)"

text \<open>
  A commit in which \<open>value\<close> is new (the mount, or a render with a changed value): the
  first effect is cleaned up and run again, then the second effect runs. If that changed
  the state \<open>isFirstCall\<close>, the component renders again; only the first effect has
  \<open>isFirstCall\<close> among its dependencies, so only it is cleaned up and re-run.
\<close>

definition debounce_commit ::
  "debounce_options \<Rightarrow> int \<Rightarrow> 'a \<Rightarrow> 'a db_state \<Rightarrow> 'a db_state" where
  "debounce_commit opts now value s =
     (let s1 = debounce_effect opts now value (debounce_cleanup s);
          s2 = debounce_effect2 opts s1
      in if isFirstCall s2 \<noteq> isFirstCall s
         then debounce_effect opts now value (debounce_cleanup s2)
         else s2)"

definition useDebounce_mount :: "debounce_options \<Rightarrow> int \<Rightarrow> 'a \<Rightarrow> 'a db_state" where
  "useDebounce_mount opts now value = debounce_commit opts now value (useDebounce_init value)"

definition useDebounce_update ::
  "debounce_options \<Rightarrow> int \<Rightarrow> 'a \<Rightarrow> 'a db_state \<Rightarrow> 'a db_state" where
  "useDebounce_update opts now value s = debounce_commit opts now value s"

text \<open>
  The two timer callbacks, each with the \<open>value\<close> of its effect run in the closure, and
  the host running them when due. Once mounted, \<open>isFirstCall\<close> is already false, so the
  quiescence callback changes no dependency of an effect.
\<close>

definition quiescence_timeout :: "'a \<Rightarrow> 'a db_state \<Rightarrow> 'a db_state" where
  "quiescence_timeout value s =
     s\<lparr>debouncedValue := value,
       setDebouncedValue_log := setDebouncedValue_log s @ [value],
       isFirstCall := False\<rparr>"

definition maxWait_timeout :: "'a \<Rightarrow> 'a db_state \<Rightarrow> 'a db_state" where
  "maxWait_timeout value s =
     s\<lparr>debouncedValue := value,
       setDebouncedValue_log := setDebouncedValue_log s @ [value]\<rparr>"

definition db_timer_fires :: "int \<Rightarrow> 'a db_state \<Rightarrow> 'a db_state" where
  "db_timer_fires t s =
     (case timer s of
        Some h \<Rightarrow> if can_fire (Some h) t
                  then (quiescence_timeout (payload h) s)\<lparr>timer := None\<rparr> else s
      | None \<Rightarrow> s)"

definition db_maxWaitTimer_fires :: "int \<Rightarrow> 'a db_state \<Rightarrow> 'a db_state" where
  "db_maxWaitTimer_fires t s =
     (case maxWaitTimer s of
        Some h \<Rightarrow> if can_fire (Some h) t
                  then (maxWait_timeout (payload h) s)\<lparr>maxWaitTimer := None\<rparr> else s
      | None \<Rightarrow> s)"

text \<open>
  Time passes up to clock reading \<open>t\<close>: every timer that is due by then runs. Both timers
  of a run carry the same value, so their order does not show in the output.
\<close>

definition debounce_elapse :: "int \<Rightarrow> 'a db_state \<Rightarrow> 'a db_state" where
  "debounce_elapse t s = db_maxWaitTimer_fires t (db_timer_fires t s)"

text \<open>
  A stream of updates \<open>(t, v)\<close>, value \<open>v\<close> arriving at clock reading \<open>t\<close>, with the
  host running whatever is due before each of them.
\<close>

fun debounce_run ::
  "debounce_options \<Rightarrow> (int \<times> 'a) list \<Rightarrow> 'a db_state \<Rightarrow> 'a db_state" where
  "debounce_run opts [] s = s"
| "debounce_run opts ((t, v) # es) s =
     debounce_run opts es (useDebounce_update opts t v (debounce_elapse t s))"

text \<open>
  A burst: updates at non-decreasing clock readings, each less than \<open>g\<close> after the one
  before it, the first less than \<open>g\<close> after \<open>t\<close>.
\<close>

fun burst :: "int \<Rightarrow> int \<Rightarrow> (int \<times> 'a) list \<Rightarrow> bool" where
  "burst g t [] = True"
| "burst g t ((t', v) # es) = (t \<le> t' \<and> t' < t + g \<and> burst g t' es)"

section \<open>Construction\<close>

text \<open>
  What a call of each hook at its first render yields, with \<open>None\<close> standing for a thrown
  exception. No hook body contains a \<^verbatim>\<open>throw\<close> or inspects the sign of an option.
\<close>

definition useDebounce_construct ::
  "debounce_options \<Rightarrow> int \<Rightarrow> 'a \<Rightarrow> 'a db_state option" where
  "useDebounce_construct opts now value = Some (useDebounce_mount opts now value)"

definition useThrottle_construct ::
  "throttle_options \<Rightarrow> int \<Rightarrow> 'a \<Rightarrow> 'a tv_state option" where
  "useThrottle_construct opts now value = Some (useThrottle_mount opts now value)"

definition useThrottleCallback_construct ::
  "throttle_options \<Rightarrow> 'f \<Rightarrow> ('f, 'a) tc_state option" where
  "useThrottleCallback_construct opts callback = Some (useThrottleCallback_init callback)"

section \<open>Throttle-Callback: the two branches and the invariant\<close>

lemma throttledCallback_leading:
  "leading opts \<Longrightarrow> delay opts \<le> now - cb_lastExecutedRef s \<Longrightarrow>
   throttledCallback opts now args s =
     s\<lparr>calls := calls s @ [(callbackRef s, args)], cb_lastExecutedRef := now,
       isThrottled := False, cb_timeoutRef := None, pendingArgsRef := None\<rparr>"
  by (simp add: throttledCallback_def)

lemma throttledCallback_trailing:
  "\<not> (leading opts \<and> delay opts \<le> now - cb_lastExecutedRef s) \<Longrightarrow> trailing opts \<Longrightarrow>
   throttledCallback opts now args s =
     s\<lparr>pendingArgsRef := Some args, isThrottled := True,
       cb_timeoutRef :=
         Some (setTimeout () now (max 0 (delay opts - (now - cb_lastExecutedRef s))))\<rparr>"
  by (auto simp: throttledCallback_def Let_def)

lemma throttledCallback_dropped:
  "\<not> (leading opts \<and> delay opts \<le> now - cb_lastExecutedRef s) \<Longrightarrow> \<not> trailing opts \<Longrightarrow>
   throttledCallback opts now args s = s"
  by (auto simp: throttledCallback_def Let_def)

lemma due_setTimeout: "due (setTimeout p now w) = now + max 0 w"
  by (simp add: due_def setTimeout_def)

lemma can_fire_setTimeout: "can_fire (Some (setTimeout p now w)) t = (now + max 0 w \<le> t)"
  by (simp add: can_fire_def due_def setTimeout_def)

lemma cb_inv_init: "cb_inv (useThrottleCallback_init f)"
  by (simp add: cb_inv_def useThrottleCallback_init_def)

lemma cb_inv_rerender: "cb_inv s \<Longrightarrow> cb_inv (rerender f s)"
  by (simp add: cb_inv_def rerender_def)

lemma cb_inv_cancel: "cb_inv (cancel s)"
  by (simp add: cb_inv_def cancel_def)

lemma cb_inv_flush: "cb_inv s \<Longrightarrow> cb_inv (flush now s)"
  by (auto simp: cb_inv_def flush_def split: option.splits)

lemma cb_inv_throttledCallback: "cb_inv s \<Longrightarrow> cb_inv (throttledCallback opts now args s)"
  by (auto simp: cb_inv_def throttledCallback_def Let_def)

lemma cb_inv_timer_fires: "cb_inv s \<Longrightarrow> cb_inv (cb_timer_fires t s)"
  by (auto simp: cb_inv_def cb_timer_fires_def trailing_timeout_def Let_def
      split: option.splits)

lemma cb_inv_step: "cb_inv s \<Longrightarrow> cb_inv (cb_step opts s e)"
  by (cases e)
    (simp_all add: cb_inv_throttledCallback cb_inv_timer_fires cb_inv_cancel cb_inv_flush
      cb_inv_rerender)

lemma cb_inv_run: "cb_inv s \<Longrightarrow> cb_inv (cb_run opts es s)"
  unfolding cb_run_def by (induction es arbitrary: s) (simp_all add: cb_inv_step)

lemma cb_pending_iff_isThrottled: "cb_inv s \<Longrightarrow> cb_pending s = isThrottled s"
  by (auto simp: cb_inv_def cb_pending_def)

lemma cancel_idle: "cb_inv s \<Longrightarrow> \<not> cb_pending s \<Longrightarrow> cancel s = s"
  by (auto simp: cb_inv_def cb_pending_def cancel_def)

lemma cancel_no_fire: "cb_timer_fires t (cancel s) = cancel s"
  by (simp add: cb_timer_fires_def cancel_def can_fire_def)

lemma invoke_after_cancel_calls:
  "calls (throttledCallback opts now args (cancel s)) =
     (if leading opts \<and> delay opts \<le> now - cb_lastExecutedRef s
      then calls s @ [(callbackRef s, args)] else calls s)"
  by (simp add: throttledCallback_def cancel_def Let_def)

section \<open>Throttle-Callback: flush\<close>

lemma flush_pending:
  "cb_timeoutRef s = Some h \<Longrightarrow> pendingArgsRef s = Some args \<Longrightarrow>
   flush now s = s\<lparr>cb_timeoutRef := None, calls := calls s @ [(callbackRef s, args)],
                   cb_lastExecutedRef := now, pendingArgsRef := None, isThrottled := False\<rparr>"
  by (simp add: flush_def)

lemma flush_not_pending: "\<not> cb_pending s \<Longrightarrow> flush now s = s"
  by (auto simp: flush_def cb_pending_def split: option.splits)

lemma flush_clears: "\<not> cb_pending (flush now s)"
  by (auto simp: flush_def cb_pending_def split: option.splits)

lemma flush_calls_changed: "(calls (flush now s) \<noteq> calls s) = cb_pending s"
  by (auto simp: flush_def cb_pending_def split: option.splits)

lemma flush_calls_length: "length (calls (flush now s)) \<le> Suc (length (calls s))"
  by (auto simp: flush_def split: option.splits)

text \<open>
  C6. \<open>flush\<close> invokes the wrapped function, synchronously and with the pending
  arguments, exactly when a trailing invocation is pending (a timer is registered and
  arguments are stored); it then drops the timer, the pending arguments and
  \<open>isThrottled\<close>, and moves the anchor to the time of the flush. With nothing pending it
  returns the state unchanged. A second \<open>flush\<close> right after a first changes nothing, so
  the two together invoke the wrapped function at most once.
\<close>

theorem flush_iff_pending_idempotent:
  "(cb_timeoutRef s = Some h \<and> pendingArgsRef s = Some args \<longrightarrow>
      calls (flush now s) = calls s @ [(callbackRef s, args)] \<and>
      cb_timeoutRef (flush now s) = None \<and>
      pendingArgsRef (flush now s) = None \<and>
      \<not> isThrottled (flush now s) \<and>
      cb_lastExecutedRef (flush now s) = now) \<and>
   (\<not> cb_pending s \<longrightarrow> flush now s = s) \<and>
   ((calls (flush now s) \<noteq> calls s) = cb_pending s) \<and>
   flush now' (flush now s) = flush now s \<and>
   length (calls (flush now' (flush now s))) \<le> Suc (length (calls s))"
proof -
  have again: "flush now' (flush now s) = flush now s"
    using flush_clears [of now s] by (rule flush_not_pending)
  have once: "length (calls (flush now' (flush now s))) \<le> Suc (length (calls s))"
    unfolding again by (rule flush_calls_length)
  have pend: "cb_timeoutRef s = Some h \<and> pendingArgsRef s = Some args \<longrightarrow>
      calls (flush now s) = calls s @ [(callbackRef s, args)] \<and>
      cb_timeoutRef (flush now s) = None \<and>
      pendingArgsRef (flush now s) = None \<and>
      \<not> isThrottled (flush now s) \<and>
      cb_lastExecutedRef (flush now s) = now"
    by (simp add: flush_def)
  have idle: "\<not> cb_pending s \<longrightarrow> flush now s = s"
    by (simp add: flush_not_pending)
  show ?thesis
    using pend idle flush_calls_changed [of now s] again once by blast
qed

text \<open>
  The theorem at two states: one with \<open>''B''\<close> pending inside the window opened by
  \<open>''A''\<close>, flushed at 1040 and again at 1050, and the freshly constructed gate.
\<close>

theorem flush_iff_pending_idempotent_witness:
  "cb_timeoutRef
     (throttledCallback \<lparr>delay = 100, leading = True, trailing = True\<rparr> 1030 ''B''
       (throttledCallback \<lparr>delay = 100, leading = True, trailing = True\<rparr> 1000 ''A''
         (useThrottleCallback_init ''f''))) = Some (setTimeout () 1030 70) \<and>
   pendingArgsRef
     (throttledCallback \<lparr>delay = 100, leading = True, trailing = True\<rparr> 1030 ''B''
       (throttledCallback \<lparr>delay = 100, leading = True, trailing = True\<rparr> 1000 ''A''
         (useThrottleCallback_init ''f''))) = Some ''B'' \<and>
   calls (flush 1050 (flush 1040
     (throttledCallback \<lparr>delay = 100, leading = True, trailing = True\<rparr> 1030 ''B''
       (throttledCallback \<lparr>delay = 100, leading = True, trailing = True\<rparr> 1000 ''A''
         (useThrottleCallback_init ''f''))))) = [(''f'', ''A''), (''f'', ''B'')] \<and>
   \<not> cb_pending (useThrottleCallback_init ''f'' :: (string, string) tc_state) \<and>
   flush 1040 (useThrottleCallback_init ''f'' :: (string, string) tc_state) =
     useThrottleCallback_init ''f''"
  using
    flush_iff_pending_idempotent
      [of "throttledCallback \<lparr>delay = 100, leading = True, trailing = True\<rparr> 1030 ''B''
            (throttledCallback \<lparr>delay = 100, leading = True, trailing = True\<rparr> 1000 ''A''
              (useThrottleCallback_init ''f''))"
          "setTimeout () 1030 70" "''B''" 1040 1050]
    flush_iff_pending_idempotent
      [of "useThrottleCallback_init ''f'' :: (string, string) tc_state" _ _ 1040 1050]
  by (simp add: throttledCallback_def useThrottleCallback_init_def cb_pending_def
      setTimeout_def)

section \<open>Throttle-Callback: the function reference\<close>

text \<open>
  C7. A trailing invocation calls the function that is in \<open>callbackRef\<close> when it runs.
  Let the arguments be stored by an invoke that takes the trailing branch, whatever
  function the gate held then, and let a later render supply \<open>g\<close>. Then both the timer
  callback (run by the host at any \<open>t\<close> from its due time on) and \<open>flush\<close> invoke \<open>g\<close>
  with those arguments, and nothing else.
\<close>

theorem trailing_invokes_latest_callback:
  assumes "trailing opts"
    and "\<not> (leading opts \<and> delay opts \<le> now - cb_lastExecutedRef s)"
  shows "(now + max 0 (delay opts - (now - cb_lastExecutedRef s)) \<le> t \<longrightarrow>
            calls (cb_timer_fires t (rerender g (throttledCallback opts now args s))) =
              calls s @ [(g, args)]) \<and>
         calls (flush t (rerender g (throttledCallback opts now args s))) =
           calls s @ [(g, args)]"
proof -
  let ?s1 = "rerender g (throttledCallback opts now args s)"
  have sched: "throttledCallback opts now args s =
      s\<lparr>pendingArgsRef := Some args, isThrottled := True,
        cb_timeoutRef :=
          Some (setTimeout () now (max 0 (delay opts - (now - cb_lastExecutedRef s))))\<rparr>"
    using assms by (simp add: throttledCallback_trailing)
  have fire: "now + max 0 (delay opts - (now - cb_lastExecutedRef s)) \<le> t \<longrightarrow>
      calls (cb_timer_fires t ?s1) = calls s @ [(g, args)]"
    unfolding sched
    by (simp add: cb_timer_fires_def rerender_def can_fire_setTimeout trailing_timeout_def)
  have fl: "calls (flush t ?s1) = calls s @ [(g, args)]"
    unfolding sched by (simp add: flush_def rerender_def)
  from fire fl show ?thesis by simp
qed

text \<open>
  At a gate holding \<open>''f''\<close>: \<open>''A''\<close> is invoked at 1000, \<open>''B''\<close> becomes pending at 1030,
  the next render supplies \<open>''g''\<close>, and the trailing invocation at 1100 (or a flush at
  1050) calls \<open>''g''\<close>.
\<close>

theorem trailing_invokes_latest_callback_witness:
  "calls (cb_timer_fires 1100 (rerender ''g''
     (throttledCallback \<lparr>delay = 100, leading = True, trailing = True\<rparr> 1030 ''B''
       (throttledCallback \<lparr>delay = 100, leading = True, trailing = True\<rparr> 1000 ''A''
         (useThrottleCallback_init ''f''))))) = [(''f'', ''A''), (''g'', ''B'')] \<and>
   calls (flush 1100 (rerender ''g''
     (throttledCallback \<lparr>delay = 100, leading = True, trailing = True\<rparr> 1030 ''B''
       (throttledCallback \<lparr>delay = 100, leading = True, trailing = True\<rparr> 1000 ''A''
         (useThrottleCallback_init ''f''))))) = [(''f'', ''A''), (''g'', ''B'')]"
  using trailing_invokes_latest_callback
    [of "\<lparr>delay = 100, leading = True, trailing = True\<rparr>" 1030
        "throttledCallback \<lparr>delay = 100, leading = True, trailing = True\<rparr> 1000 ''A''
           (useThrottleCallback_init ''f'')" 1100 "''g''" "''B''"]
  by (simp add: throttledCallback_def useThrottleCallback_init_def)

section \<open>Throttle-Callback: the first invoke without a leading edge\<close>

text \<open>
  C10. With \<open>leading = false\<close> and \<open>trailing = true\<close>, the first invoke ever, at a clock
  reading beyond the delay (any reading of a millisecond clock counting from 1970 is),
  finds \<open>lastExecutedRef\<close> at its initial 0: the remaining delay \<open>delay - (now - 0)\<close> is
  negative, the wait handed to the host is \<open>max 0\<close> of it, that is 0, nothing is invoked
  synchronously, and the host may run the trailing invocation with these arguments at
  the same clock reading.
\<close>

theorem first_invoke_trailing_only_zero_wait:
  assumes "\<not> leading opts" and "trailing opts" and "delay opts < now"
  shows "delay opts - (now - cb_lastExecutedRef (useThrottleCallback_init f :: ('f, 'a) tc_state)) < 0 \<and>
         cb_timeoutRef (throttledCallback opts now args (useThrottleCallback_init f)) =
           Some (setTimeout () now 0) \<and>
         due (setTimeout () now 0) = now \<and>
         pendingArgsRef (throttledCallback opts now args (useThrottleCallback_init f)) =
           Some args \<and>
         isThrottled (throttledCallback opts now args (useThrottleCallback_init f)) \<and>
         calls (throttledCallback opts now (args :: 'a) (useThrottleCallback_init f)) = [] \<and>
         calls (cb_timer_fires now (throttledCallback opts now args (useThrottleCallback_init f))) =
           [(f, args)]"
  using assms
  by (simp add: throttledCallback_def useThrottleCallback_init_def Let_def due_setTimeout
      cb_timer_fires_def can_fire_setTimeout trailing_timeout_def)

theorem first_invoke_trailing_only_zero_wait_witness:
  "cb_timeoutRef (throttledCallback \<lparr>delay = 300, leading = False, trailing = True\<rparr>
       1700000000000 ''x'' (useThrottleCallback_init ''f'')) =
     Some \<lparr>payload = (), set_at = 1700000000000, wait = 0, cleared = False\<rparr> \<and>
   calls (throttledCallback \<lparr>delay = 300, leading = False, trailing = True\<rparr>
       1700000000000 ''x'' (useThrottleCallback_init ''f'')) = [] \<and>
   calls (cb_timer_fires 1700000000000
     (throttledCallback \<lparr>delay = 300, leading = False, trailing = True\<rparr>
       1700000000000 ''x'' (useThrottleCallback_init ''f''))) = [(''f'', ''x'')]"
  using first_invoke_trailing_only_zero_wait
    [of "\<lparr>delay = 300, leading = False, trailing = True\<rparr>" 1700000000000 "''f''" "''x''"]
  by (simp add: setTimeout_def)

section \<open>Throttle-Callback: cancel\<close>

text \<open>
  \<open>cancel\<close> does not write \<open>lastExecutedRef\<close>, so the window opened by the last
  invocation stays open. Here \<open>''A''\<close> is invoked at 1000, \<open>''B''\<close> becomes pending at
  1030 and is cancelled; \<open>''C''\<close>, invoked at 1050 with \<open>leading = true\<close>, is not passed to
  the wrapped function but stored as the next trailing invocation, due at 1100.
\<close>

theorem cancel_keeps_window_counterexample:
  "calls (throttledCallback \<lparr>delay = 100, leading = True, trailing = True\<rparr> 1050 ''C''
     (cancel
       (throttledCallback \<lparr>delay = 100, leading = True, trailing = True\<rparr> 1030 ''B''
         (throttledCallback \<lparr>delay = 100, leading = True, trailing = True\<rparr> 1000 ''A''
           (useThrottleCallback_init ''f''))))) = [(''f'', ''A'')] \<and>
   pendingArgsRef (throttledCallback \<lparr>delay = 100, leading = True, trailing = True\<rparr> 1050 ''C''
     (cancel
       (throttledCallback \<lparr>delay = 100, leading = True, trailing = True\<rparr> 1030 ''B''
         (throttledCallback \<lparr>delay = 100, leading = True, trailing = True\<rparr> 1000 ''A''
           (useThrottleCallback_init ''f''))))) = Some ''C'' \<and>
   cb_timeoutRef (throttledCallback \<lparr>delay = 100, leading = True, trailing = True\<rparr> 1050 ''C''
     (cancel
       (throttledCallback \<lparr>delay = 100, leading = True, trailing = True\<rparr> 1030 ''B''
         (throttledCallback \<lparr>delay = 100, leading = True, trailing = True\<rparr> 1000 ''A''
           (useThrottleCallback_init ''f''))))) =
     Some \<lparr>payload = (), set_at = 1050, wait = 50, cleared = False\<rparr>"
  by (simp add: throttledCallback_def cancel_def useThrottleCallback_init_def setTimeout_def)

text \<open>
  C5, as the code has it. \<open>cancel\<close> drops the pending arguments and the timer without
  invoking the wrapped function (the log of calls is unchanged, and the host has nothing
  left to run), clears \<open>isThrottled\<close>, and leaves the anchor \<open>lastExecutedRef\<close> alone.
  With nothing pending it changes nothing. An invoke after \<open>cancel\<close> with
  \<open>leading = true\<close> calls the wrapped function at once exactly when the delay has passed
  since the anchor; inside the window, with \<open>trailing = true\<close>, it is stored as the new
  trailing invocation, due at the window's end.
\<close>

theorem cancel_discards_pending_keeps_anchor:
  "calls (cancel s) = calls s \<and>
   cb_timeoutRef (cancel s) = None \<and>
   pendingArgsRef (cancel s) = None \<and>
   \<not> isThrottled (cancel s) \<and>
   cb_lastExecutedRef (cancel s) = cb_lastExecutedRef s \<and>
   cb_timer_fires t (cancel s) = cancel s \<and>
   (cb_inv s \<and> \<not> cb_pending s \<longrightarrow> cancel s = s) \<and>
   (leading opts \<longrightarrow>
      (calls (throttledCallback opts now args (cancel s)) = calls s @ [(callbackRef s, args)]) =
        (delay opts \<le> now - cb_lastExecutedRef s)) \<and>
   (trailing opts \<and> now - cb_lastExecutedRef s < delay opts \<longrightarrow>
      calls (throttledCallback opts now args (cancel s)) = calls s \<and>
      pendingArgsRef (throttledCallback opts now args (cancel s)) = Some args \<and>
      (case cb_timeoutRef (throttledCallback opts now args (cancel s)) of
         Some h \<Rightarrow> due h = cb_lastExecutedRef s + delay opts | None \<Rightarrow> False))"
proof -
  have fields: "calls (cancel s) = calls s \<and> cb_timeoutRef (cancel s) = None \<and>
      pendingArgsRef (cancel s) = None \<and> \<not> isThrottled (cancel s) \<and>
      cb_lastExecutedRef (cancel s) = cb_lastExecutedRef s"
    by (simp add: cancel_def)
  have idle: "cb_inv s \<and> \<not> cb_pending s \<longrightarrow> cancel s = s"
    by (simp add: cancel_idle)
  have lead: "leading opts \<longrightarrow>
      (calls (throttledCallback opts now args (cancel s)) = calls s @ [(callbackRef s, args)]) =
        (delay opts \<le> now - cb_lastExecutedRef s)"
    by (simp add: invoke_after_cancel_calls)
  have trail: "trailing opts \<and> now - cb_lastExecutedRef s < delay opts \<longrightarrow>
      calls (throttledCallback opts now args (cancel s)) = calls s \<and>
      pendingArgsRef (throttledCallback opts now args (cancel s)) = Some args \<and>
      (case cb_timeoutRef (throttledCallback opts now args (cancel s)) of
         Some h \<Rightarrow> due h = cb_lastExecutedRef s + delay opts | None \<Rightarrow> False)"
    by (simp add: throttledCallback_def cancel_def Let_def due_setTimeout)
  from fields idle lead trail cancel_no_fire [of t s] show ?thesis by blast
qed

text \<open>
  The theorem at the state with \<open>''B''\<close> pending since 1030 in the window anchored at
  1000, cancelled, and followed by \<open>''C''\<close> once inside the window (1050) and once after
  it (1100); and at the fresh gate, where nothing is pending.
\<close>

theorem cancel_discards_pending_keeps_anchor_witness:
  "calls (throttledCallback \<lparr>delay = 100, leading = True, trailing = True\<rparr> 1050 ''C''
     (cancel
       (throttledCallback \<lparr>delay = 100, leading = True, trailing = True\<rparr> 1030 ''B''
         (throttledCallback \<lparr>delay = 100, leading = True, trailing = True\<rparr> 1000 ''A''
           (useThrottleCallback_init ''f''))))) = [(''f'', ''A'')] \<and>
   calls (throttledCallback \<lparr>delay = 100, leading = True, trailing = True\<rparr> 1100 ''C''
     (cancel
       (throttledCallback \<lparr>delay = 100, leading = True, trailing = True\<rparr> 1030 ''B''
         (throttledCallback \<lparr>delay = 100, leading = True, trailing = True\<rparr> 1000 ''A''
           (useThrottleCallback_init ''f''))))) = [(''f'', ''A''), (''f'', ''C'')] \<and>
   cb_inv (useThrottleCallback_init ''f'' :: (string, string) tc_state) \<and>
   \<not> cb_pending (useThrottleCallback_init ''f'' :: (string, string) tc_state) \<and>
   cancel (useThrottleCallback_init ''f'' :: (string, string) tc_state) =
     useThrottleCallback_init ''f''"
  using
    cancel_discards_pending_keeps_anchor
      [of "throttledCallback \<lparr>delay = 100, leading = True, trailing = True\<rparr> 1030 ''B''
            (throttledCallback \<lparr>delay = 100, leading = True, trailing = True\<rparr> 1000 ''A''
              (useThrottleCallback_init ''f''))"
          1100 "\<lparr>delay = 100, leading = True, trailing = True\<rparr>" 1050 "''C''"]
    cancel_discards_pending_keeps_anchor
      [of "throttledCallback \<lparr>delay = 100, leading = True, trailing = True\<rparr> 1030 ''B''
            (throttledCallback \<lparr>delay = 100, leading = True, trailing = True\<rparr> 1000 ''A''
              (useThrottleCallback_init ''f''))"
          1100 "\<lparr>delay = 100, leading = True, trailing = True\<rparr>" 1100 "''C''"]
    cancel_discards_pending_keeps_anchor
      [of "useThrottleCallback_init ''f'' :: (string, string) tc_state"
          1100 "\<lparr>delay = 100, leading = True, trailing = True\<rparr>" 1100 "''C''"]
  by (simp add: throttledCallback_def cancel_def useThrottleCallback_init_def cb_inv_def
      cb_pending_def)

section \<open>The throttle scenario\<close>

lemmas host_defs = can_fire_def due_def setTimeout_def clearTimeout_def

lemmas cb_scenario_defs =
  cb_run_def throttledCallback_def cb_timer_fires_def trailing_timeout_def
  useThrottleCallback_init_def

lemmas tv_scenario_defs =
  tv_run_def useThrottle_mount_def useThrottle_update_def useThrottle_init_def
  throttle_effect_def throttle_cleanup_def tv_timer_fires_def throttle_timeout_def

text \<open>
  \<open>delay = 100\<close>, both edges on. The callback gate is invoked with \<open>''A''\<close> to \<open>''E''\<close> at
  1000, 1030, 1060, 1090 and 1130 and its timer runs at 1100; the value gate is mounted
  with \<open>''A''\<close> at 0, updated at 30, 60, 90 and 130, and its timer runs at 100. In both,
  \<open>''E''\<close> arrives 30 after the trailing emission of \<open>''D''\<close> moved the anchor, inside the
  new window: it is not emitted, it is stored for the next trailing emission.
\<close>

theorem throttle_scenario_counterexample:
  "calls (cb_run \<lparr>delay = 100, leading = True, trailing = True\<rparr>
      [Invoke 1000 ''A'', Invoke 1030 ''B'', Invoke 1060 ''C'', Invoke 1090 ''D'',
       TimerFires 1100, Invoke 1130 ''E'']
      (useThrottleCallback_init ''f'')) = [(''f'', ''A''), (''f'', ''D'')] \<and>
   pendingArgsRef (cb_run \<lparr>delay = 100, leading = True, trailing = True\<rparr>
      [Invoke 1000 ''A'', Invoke 1030 ''B'', Invoke 1060 ''C'', Invoke 1090 ''D'',
       TimerFires 1100, Invoke 1130 ''E'']
      (useThrottleCallback_init ''f'')) = Some ''E'' \<and>
   throttledValue (tv_run \<lparr>delay = 100, leading = True, trailing = True\<rparr>
      [Update 30 ''B'', Update 60 ''C'', Update 90 ''D'', Fires 100, Update 130 ''E'']
      (useThrottle_mount \<lparr>delay = 100, leading = True, trailing = True\<rparr> 0 ''A'')) = ''D'' \<and>
   setThrottledValue_log (tv_run \<lparr>delay = 100, leading = True, trailing = True\<rparr>
      [Update 30 ''B'', Update 60 ''C'', Update 90 ''D'', Fires 100, Update 130 ''E'']
      (useThrottle_mount \<lparr>delay = 100, leading = True, trailing = True\<rparr> 0 ''A'')) =
     [''A'', ''D'']"
  by (simp add: cb_scenario_defs tv_scenario_defs host_defs)

text \<open>
  C3, as the code has it. \<open>delay = 100\<close>, both edges on, payloads \<open>a\<close> to \<open>e\<close> arriving at
  \<open>t0\<close>, \<open>t0 + 30\<close>, \<open>t0 + 60\<close>, \<open>t0 + 90\<close> and \<open>t0 + 130\<close>; for the callback gate the
  clock reads at least 100 at the first call, for the value gate the first call is the
  mount. Then \<open>a\<close> is emitted at \<open>t0\<close> (leading); \<open>b\<close>, \<open>c\<close>, \<open>d\<close> are emitted by no
  call and \<open>d\<close> is what is pending, due at \<open>t0 + 100\<close>; the timer, run by the host at
  some \<open>tf\<close> from \<open>t0 + 100\<close> to \<open>t0 + 130\<close>, emits \<open>d\<close> and moves the anchor to \<open>tf\<close>;
  and \<open>e\<close> at \<open>t0 + 130\<close>, less than 100 after \<open>tf\<close>, is not emitted by its call: it is
  pending, due at \<open>tf + 100\<close>, and emitted when the host runs that timer.
\<close>

theorem throttle_scenario:
  assumes "100 \<le> t0" and "t0 + 100 \<le> tf" and "tf \<le> t0 + 130" and "tf + 100 \<le> te"
  shows
   "calls (cb_run \<lparr>delay = 100, leading = True, trailing = True\<rparr>
      [Invoke t0 a] (useThrottleCallback_init f)) = [(f, a)] \<and>
    calls (cb_run \<lparr>delay = 100, leading = True, trailing = True\<rparr>
      [Invoke t0 a, Invoke (t0 + 30) b, Invoke (t0 + 60) c, Invoke (t0 + 90) d]
      (useThrottleCallback_init f)) = [(f, a)] \<and>
    pendingArgsRef (cb_run \<lparr>delay = 100, leading = True, trailing = True\<rparr>
      [Invoke t0 a, Invoke (t0 + 30) b, Invoke (t0 + 60) c, Invoke (t0 + 90) d]
      (useThrottleCallback_init f)) = Some d \<and>
    map_option due (cb_timeoutRef (cb_run \<lparr>delay = 100, leading = True, trailing = True\<rparr>
      [Invoke t0 a, Invoke (t0 + 30) b, Invoke (t0 + 60) c, Invoke (t0 + 90) d]
      (useThrottleCallback_init f))) = Some (t0 + 100) \<and>
    calls (cb_run \<lparr>delay = 100, leading = True, trailing = True\<rparr>
      [Invoke t0 a, Invoke (t0 + 30) b, Invoke (t0 + 60) c, Invoke (t0 + 90) d,
       TimerFires tf]
      (useThrottleCallback_init f)) = [(f, a), (f, d)] \<and>
    cb_lastExecutedRef (cb_run \<lparr>delay = 100, leading = True, trailing = True\<rparr>
      [Invoke t0 a, Invoke (t0 + 30) b, Invoke (t0 + 60) c, Invoke (t0 + 90) d,
       TimerFires tf]
      (useThrottleCallback_init f)) = tf \<and>
    calls (cb_run \<lparr>delay = 100, leading = True, trailing = True\<rparr>
      [Invoke t0 a, Invoke (t0 + 30) b, Invoke (t0 + 60) c, Invoke (t0 + 90) d,
       TimerFires tf, Invoke (t0 + 130) e]
      (useThrottleCallback_init f)) = [(f, a), (f, d)] \<and>
    pendingArgsRef (cb_run \<lparr>delay = 100, leading = True, trailing = True\<rparr>
      [Invoke t0 a, Invoke (t0 + 30) b, Invoke (t0 + 60) c, Invoke (t0 + 90) d,
       TimerFires tf, Invoke (t0 + 130) e]
      (useThrottleCallback_init f)) = Some e \<and>
    map_option due (cb_timeoutRef (cb_run \<lparr>delay = 100, leading = True, trailing = True\<rparr>
      [Invoke t0 a, Invoke (t0 + 30) b, Invoke (t0 + 60) c, Invoke (t0 + 90) d,
       TimerFires tf, Invoke (t0 + 130) e]
      (useThrottleCallback_init f))) = Some (tf + 100) \<and>
    calls (cb_run \<lparr>delay = 100, leading = True, trailing = True\<rparr>
      [Invoke t0 a, Invoke (t0 + 30) b, Invoke (t0 + 60) c, Invoke (t0 + 90) d,
       TimerFires tf, Invoke (t0 + 130) e, TimerFires te]
      (useThrottleCallback_init f)) = [(f, a), (f, d), (f, e)] \<and>
    setThrottledValue_log
      (useThrottle_mount \<lparr>delay = 100, leading = True, trailing = True\<rparr> t0 a) = [a] \<and>
    setThrottledValue_log (tv_run \<lparr>delay = 100, leading = True, trailing = True\<rparr>
      [Update (t0 + 30) b, Update (t0 + 60) c, Update (t0 + 90) d]
      (useThrottle_mount \<lparr>delay = 100, leading = True, trailing = True\<rparr> t0 a)) = [a] \<and>
    map_option (\<lambda>h. (payload h, due h, cleared h))
      (timeoutRef (tv_run \<lparr>delay = 100, leading = True, trailing = True\<rparr>
        [Update (t0 + 30) b, Update (t0 + 60) c, Update (t0 + 90) d]
        (useThrottle_mount \<lparr>delay = 100, leading = True, trailing = True\<rparr> t0 a))) =
      Some (d, t0 + 100, False) \<and>
    setThrottledValue_log (tv_run \<lparr>delay = 100, leading = True, trailing = True\<rparr>
      [Update (t0 + 30) b, Update (t0 + 60) c, Update (t0 + 90) d, Fires tf]
      (useThrottle_mount \<lparr>delay = 100, leading = True, trailing = True\<rparr> t0 a)) = [a, d] \<and>
    lastExecutedRef (tv_run \<lparr>delay = 100, leading = True, trailing = True\<rparr>
      [Update (t0 + 30) b, Update (t0 + 60) c, Update (t0 + 90) d, Fires tf]
      (useThrottle_mount \<lparr>delay = 100, leading = True, trailing = True\<rparr> t0 a)) = tf \<and>
    throttledValue (tv_run \<lparr>delay = 100, leading = True, trailing = True\<rparr>
      [Update (t0 + 30) b, Update (t0 + 60) c, Update (t0 + 90) d, Fires tf,
       Update (t0 + 130) e]
      (useThrottle_mount \<lparr>delay = 100, leading = True, trailing = True\<rparr> t0 a)) = d \<and>
    setThrottledValue_log (tv_run \<lparr>delay = 100, leading = True, trailing = True\<rparr>
      [Update (t0 + 30) b, Update (t0 + 60) c, Update (t0 + 90) d, Fires tf,
       Update (t0 + 130) e]
      (useThrottle_mount \<lparr>delay = 100, leading = True, trailing = True\<rparr> t0 a)) = [a, d] \<and>
    map_option (\<lambda>h. (payload h, due h, cleared h))
      (timeoutRef (tv_run \<lparr>delay = 100, leading = True, trailing = True\<rparr>
        [Update (t0 + 30) b, Update (t0 + 60) c, Update (t0 + 90) d, Fires tf,
         Update (t0 + 130) e]
        (useThrottle_mount \<lparr>delay = 100, leading = True, trailing = True\<rparr> t0 a))) =
      Some (e, tf + 100, False) \<and>
    setThrottledValue_log (tv_run \<lparr>delay = 100, leading = True, trailing = True\<rparr>
      [Update (t0 + 30) b, Update (t0 + 60) c, Update (t0 + 90) d, Fires tf,
       Update (t0 + 130) e, Fires te]
      (useThrottle_mount \<lparr>delay = 100, leading = True, trailing = True\<rparr> t0 a)) = [a, d, e]"
  using assms by (simp add: cb_scenario_defs tv_scenario_defs host_defs)

text \<open>The scenario with the host 4 late at the first timer and on time at the second.\<close>

theorem throttle_scenario_witness:
  "calls (cb_run \<lparr>delay = 100, leading = True, trailing = True\<rparr>
      [Invoke 5000 ''A'', Invoke 5030 ''B'', Invoke 5060 ''C'', Invoke 5090 ''D'',
       TimerFires 5104, Invoke 5130 ''E'']
      (useThrottleCallback_init ''f'')) = [(''f'', ''A''), (''f'', ''D'')] \<and>
   calls (cb_run \<lparr>delay = 100, leading = True, trailing = True\<rparr>
      [Invoke 5000 ''A'', Invoke 5030 ''B'', Invoke 5060 ''C'', Invoke 5090 ''D'',
       TimerFires 5104, Invoke 5130 ''E'', TimerFires 5204]
      (useThrottleCallback_init ''f'')) = [(''f'', ''A''), (''f'', ''D''), (''f'', ''E'')] \<and>
   setThrottledValue_log (tv_run \<lparr>delay = 100, leading = True, trailing = True\<rparr>
      [Update 5030 ''B'', Update 5060 ''C'', Update 5090 ''D'', Fires 5104,
       Update 5130 ''E'']
      (useThrottle_mount \<lparr>delay = 100, leading = True, trailing = True\<rparr> 5000 ''A'')) =
     [''A'', ''D''] \<and>
   setThrottledValue_log (tv_run \<lparr>delay = 100, leading = True, trailing = True\<rparr>
      [Update 5030 ''B'', Update 5060 ''C'', Update 5090 ''D'', Fires 5104,
       Update 5130 ''E'', Fires 5204]
      (useThrottle_mount \<lparr>delay = 100, leading = True, trailing = True\<rparr> 5000 ''A'')) =
     [''A'', ''D'', ''E'']"
  using throttle_scenario
    [where ?t0.0 = 5000 and tf = 5104 and te = 5204 and f = "''f''"
       and a = "''A''" and b = "''B''" and c = "''C''" and d = "''D''" and e = "''E''"]
  by simp

section \<open>Rescheduling a pending trailing emission\<close>

lemma useThrottle_update_trailing:
  "trailing opts \<Longrightarrow> \<not> isFirstCallRef s \<Longrightarrow>
   \<not> (leading opts \<and> delay opts \<le> now - lastExecutedRef s) \<Longrightarrow>
   useThrottle_update opts now value s =
     s\<lparr>timeoutRef := Some (setTimeout value now (delay opts - (now - lastExecutedRef s)))\<rparr>"
  by (auto simp: useThrottle_update_def throttle_effect_def throttle_cleanup_def Let_def)

lemma useThrottle_update_leading:
  "leading opts \<Longrightarrow> isFirstCallRef s \<or> delay opts \<le> now - lastExecutedRef s \<Longrightarrow>
   useThrottle_update opts now value s =
     s\<lparr>throttledValue := value,
       setThrottledValue_log := setThrottledValue_log s @ [value],
       lastExecutedRef := now, isFirstCallRef := False, timeoutRef := None\<rparr>"
  by (auto simp: useThrottle_update_def throttle_effect_def throttle_cleanup_def Let_def)

lemma useThrottle_mount_not_first: "\<not> isFirstCallRef (useThrottle_mount opts now value)"
  by (simp add: useThrottle_mount_def throttle_effect_def useThrottle_init_def Let_def)

lemma useThrottle_update_not_first: "\<not> isFirstCallRef (useThrottle_update opts now value s)"
  by (simp add: useThrottle_update_def throttle_effect_def Let_def)

lemma tv_timer_fires_not_first: "\<not> isFirstCallRef s \<Longrightarrow> \<not> isFirstCallRef (tv_timer_fires t s)"
  by (simp add: tv_timer_fires_def throttle_timeout_def split: option.splits)

lemma tv_step_not_first: "\<not> isFirstCallRef s \<Longrightarrow> \<not> isFirstCallRef (tv_step opts s e)"
  by (cases e) (simp_all add: useThrottle_update_not_first tv_timer_fires_not_first)

lemma tv_run_not_first: "\<not> isFirstCallRef s \<Longrightarrow> \<not> isFirstCallRef (tv_run opts es s)"
  unfolding tv_run_def by (induction es arbitrary: s) (simp_all add: tv_step_not_first)

lemma tv_fire_scheduled:
  "now + max 0 w \<le> t \<Longrightarrow>
   tv_timer_fires t (s\<lparr>timeoutRef := Some (setTimeout value now w)\<rparr>) =
     s\<lparr>throttledValue := value,
       setThrottledValue_log := setThrottledValue_log s @ [value],
       lastExecutedRef := t, timeoutRef := None\<rparr>"
  by (simp add: tv_timer_fires_def can_fire_setTimeout throttle_timeout_def)
    (simp add: setTimeout_def)

lemma tv_no_fire_early:
  "t < now + max 0 w \<Longrightarrow>
   tv_timer_fires t (s\<lparr>timeoutRef := Some (setTimeout value now w)\<rparr>) =
     s\<lparr>timeoutRef := Some (setTimeout value now w)\<rparr>"
  by (simp add: tv_timer_fires_def can_fire_setTimeout)

lemma cb_fire_scheduled:
  "now + max 0 w \<le> t \<Longrightarrow>
   cb_timer_fires t (s\<lparr>pendingArgsRef := Some args, isThrottled := True,
                       cb_timeoutRef := Some (setTimeout () now w)\<rparr>) =
     s\<lparr>calls := calls s @ [(callbackRef s, args)], cb_lastExecutedRef := t,
       pendingArgsRef := None, cb_timeoutRef := None, isThrottled := False\<rparr>"
  by (simp add: cb_timer_fires_def can_fire_setTimeout trailing_timeout_def)

lemma cb_no_fire_early:
  "t < now + max 0 w \<Longrightarrow>
   cb_timer_fires t (s\<lparr>pendingArgsRef := Some args, isThrottled := True,
                       cb_timeoutRef := Some (setTimeout () now w)\<rparr>) =
     s\<lparr>pendingArgsRef := Some args, isThrottled := True,
       cb_timeoutRef := Some (setTimeout () now w)\<rparr>"
  by (simp add: cb_timer_fires_def can_fire_setTimeout)

lemma tv_reschedule:
  assumes "trailing opts" and "\<not> isFirstCallRef s"
    and "\<not> (leading opts \<and> delay opts \<le> now - lastExecutedRef s)"
  shows
   "timeoutRef (useThrottle_update opts now v s) =
         Some (setTimeout v now (delay opts - (now - lastExecutedRef s))) \<and>
       throttledValue (useThrottle_update opts now v s) = throttledValue s \<and>
       setThrottledValue_log (useThrottle_update opts now v s) = setThrottledValue_log s \<and>
       lastExecutedRef (useThrottle_update opts now v s) = lastExecutedRef s \<and>
       due (setTimeout v now (delay opts - (now - lastExecutedRef s))) =
         now + max 0 (delay opts - (now - lastExecutedRef s)) \<and>
       (now \<le> lastExecutedRef s + delay opts \<longrightarrow>
          due (setTimeout v now (delay opts - (now - lastExecutedRef s))) =
            lastExecutedRef s + delay opts) \<and>
       (t < now + max 0 (delay opts - (now - lastExecutedRef s)) \<longrightarrow>
          tv_timer_fires t (useThrottle_update opts now v s) =
            useThrottle_update opts now v s) \<and>
       (now + max 0 (delay opts - (now - lastExecutedRef s)) \<le> t \<longrightarrow>
          throttledValue (tv_timer_fires t (useThrottle_update opts now v s)) = v \<and>
          setThrottledValue_log (tv_timer_fires t (useThrottle_update opts now v s)) =
            setThrottledValue_log s @ [v] \<and>
          lastExecutedRef (tv_timer_fires t (useThrottle_update opts now v s)) = t \<and>
          timeoutRef (tv_timer_fires t (useThrottle_update opts now v s)) = None)"
proof -
  have upd: "useThrottle_update opts now v s =
      s\<lparr>timeoutRef := Some (setTimeout v now (delay opts - (now - lastExecutedRef s)))\<rparr>"
    using assms by (simp add: useThrottle_update_trailing)
  show ?thesis
    unfolding upd by (simp add: tv_no_fire_early tv_fire_scheduled due_setTimeout)
qed

lemma cb_reschedule:
  assumes "trailing opts"
    and "\<not> (leading opts \<and> delay opts \<le> now - cb_lastExecutedRef c)"
  shows
   "pendingArgsRef (throttledCallback opts now args c) = Some args \<and>
       cb_timeoutRef (throttledCallback opts now args c) =
         Some (setTimeout () now (max 0 (delay opts - (now - cb_lastExecutedRef c)))) \<and>
       calls (throttledCallback opts now args c) = calls c \<and>
       cb_lastExecutedRef (throttledCallback opts now args c) = cb_lastExecutedRef c \<and>
       due (setTimeout () now (max 0 (delay opts - (now - cb_lastExecutedRef c)))) =
         now + max 0 (delay opts - (now - cb_lastExecutedRef c)) \<and>
       (now \<le> cb_lastExecutedRef c + delay opts \<longrightarrow>
          due (setTimeout () now (max 0 (delay opts - (now - cb_lastExecutedRef c)))) =
            cb_lastExecutedRef c + delay opts) \<and>
       (t < now + max 0 (delay opts - (now - cb_lastExecutedRef c)) \<longrightarrow>
          cb_timer_fires t (throttledCallback opts now args c) =
            throttledCallback opts now args c) \<and>
       (now + max 0 (delay opts - (now - cb_lastExecutedRef c)) \<le> t \<longrightarrow>
          calls (cb_timer_fires t (throttledCallback opts now args c)) =
            calls c @ [(callbackRef c, args)] \<and>
          cb_lastExecutedRef (cb_timer_fires t (throttledCallback opts now args c)) = t \<and>
          pendingArgsRef (cb_timer_fires t (throttledCallback opts now args c)) = None \<and>
          cb_timeoutRef (cb_timer_fires t (throttledCallback opts now args c)) = None)"
proof -
  have inv: "throttledCallback opts now args c =
      c\<lparr>pendingArgsRef := Some args, isThrottled := True,
        cb_timeoutRef :=
          Some (setTimeout () now (max 0 (delay opts - (now - cb_lastExecutedRef c))))\<rparr>"
    using assms by (simp add: throttledCallback_trailing)
  have early: "t < now + max 0 (delay opts - (now - cb_lastExecutedRef c)) \<longrightarrow>
      cb_timer_fires t (throttledCallback opts now args c) =
        throttledCallback opts now args c"
    unfolding inv
    using cb_no_fire_early
      [where t = t and now = now and s = c and args = args
         and w = "max 0 (delay opts - (now - cb_lastExecutedRef c))"]
    by simp
  have late: "now + max 0 (delay opts - (now - cb_lastExecutedRef c)) \<le> t \<longrightarrow>
      cb_timer_fires t (throttledCallback opts now args c) =
        c\<lparr>calls := calls c @ [(callbackRef c, args)], cb_lastExecutedRef := t,
          pendingArgsRef := None, cb_timeoutRef := None, isThrottled := False\<rparr>"
    unfolding inv
    using cb_fire_scheduled
      [where t = t and now = now and s = c and args = args
         and w = "max 0 (delay opts - (now - cb_lastExecutedRef c))"]
    by simp
  have sched: "pendingArgsRef (throttledCallback opts now args c) = Some args \<and>
      cb_timeoutRef (throttledCallback opts now args c) =
        Some (setTimeout () now (max 0 (delay opts - (now - cb_lastExecutedRef c)))) \<and>
      calls (throttledCallback opts now args c) = calls c \<and>
      cb_lastExecutedRef (throttledCallback opts now args c) = cb_lastExecutedRef c"
    by (simp add: inv)
  have bound: "due (setTimeout () now (max 0 (delay opts - (now - cb_lastExecutedRef c)))) =
        now + max 0 (delay opts - (now - cb_lastExecutedRef c)) \<and>
      (now \<le> cb_lastExecutedRef c + delay opts \<longrightarrow>
        due (setTimeout () now (max 0 (delay opts - (now - cb_lastExecutedRef c)))) =
          cb_lastExecutedRef c + delay opts)"
    by (simp add: due_setTimeout)
  from sched bound early late show ?thesis by simp
qed

text \<open>
  C1. An update (value gate) or an invoke (callback gate) arrives at \<open>now\<close> while a
  trailing emission is pending, the gate has \<open>trailing\<close> set and the leading case does
  not apply. Then the pending payload becomes the new value (arguments); nothing is
  emitted and the anchor is not moved; the old timer is replaced by one whose wait is
  \<open>delay - (now - lastExecuted)\<close> (the callback gate clamps it with \<open>max 0\<close>, the value gate
  passes it on and the host clamps it), so that it is due \<open>max 0\<close> of that after \<open>now\<close>:
  as long as \<open>now\<close> is not past the window's end, due exactly at \<open>lastExecuted + delay\<close>,
  whatever \<open>now\<close> is. The host does not run it before that; when it runs it, at \<open>t\<close>, the
  pending payload is emitted and \<open>lastExecuted\<close> becomes \<open>t\<close>.
\<close>

theorem pending_trailing_rescheduled_at_boundary:
  assumes "trailing opts"
  shows
   "(timeoutRef s = Some h \<and> \<not> isFirstCallRef s \<and>
     \<not> (leading opts \<and> delay opts \<le> now - lastExecutedRef s) \<longrightarrow>
       timeoutRef (useThrottle_update opts now v s) =
         Some (setTimeout v now (delay opts - (now - lastExecutedRef s))) \<and>
       throttledValue (useThrottle_update opts now v s) = throttledValue s \<and>
       setThrottledValue_log (useThrottle_update opts now v s) = setThrottledValue_log s \<and>
       lastExecutedRef (useThrottle_update opts now v s) = lastExecutedRef s \<and>
       due (setTimeout v now (delay opts - (now - lastExecutedRef s))) =
         now + max 0 (delay opts - (now - lastExecutedRef s)) \<and>
       (now \<le> lastExecutedRef s + delay opts \<longrightarrow>
          due (setTimeout v now (delay opts - (now - lastExecutedRef s))) =
            lastExecutedRef s + delay opts) \<and>
       (t < now + max 0 (delay opts - (now - lastExecutedRef s)) \<longrightarrow>
          tv_timer_fires t (useThrottle_update opts now v s) =
            useThrottle_update opts now v s) \<and>
       (now + max 0 (delay opts - (now - lastExecutedRef s)) \<le> t \<longrightarrow>
          throttledValue (tv_timer_fires t (useThrottle_update opts now v s)) = v \<and>
          setThrottledValue_log (tv_timer_fires t (useThrottle_update opts now v s)) =
            setThrottledValue_log s @ [v] \<and>
          lastExecutedRef (tv_timer_fires t (useThrottle_update opts now v s)) = t \<and>
          timeoutRef (tv_timer_fires t (useThrottle_update opts now v s)) = None)) \<and>
    (cb_timeoutRef c = Some k \<and> pendingArgsRef c = Some old \<and>
     \<not> (leading opts \<and> delay opts \<le> now - cb_lastExecutedRef c) \<longrightarrow>
       pendingArgsRef (throttledCallback opts now args c) = Some args \<and>
       cb_timeoutRef (throttledCallback opts now args c) =
         Some (setTimeout () now (max 0 (delay opts - (now - cb_lastExecutedRef c)))) \<and>
       calls (throttledCallback opts now args c) = calls c \<and>
       cb_lastExecutedRef (throttledCallback opts now args c) = cb_lastExecutedRef c \<and>
       due (setTimeout () now (max 0 (delay opts - (now - cb_lastExecutedRef c)))) =
         now + max 0 (delay opts - (now - cb_lastExecutedRef c)) \<and>
       (now \<le> cb_lastExecutedRef c + delay opts \<longrightarrow>
          due (setTimeout () now (max 0 (delay opts - (now - cb_lastExecutedRef c)))) =
            cb_lastExecutedRef c + delay opts) \<and>
       (t < now + max 0 (delay opts - (now - cb_lastExecutedRef c)) \<longrightarrow>
          cb_timer_fires t (throttledCallback opts now args c) =
            throttledCallback opts now args c) \<and>
       (now + max 0 (delay opts - (now - cb_lastExecutedRef c)) \<le> t \<longrightarrow>
          calls (cb_timer_fires t (throttledCallback opts now args c)) =
            calls c @ [(callbackRef c, args)] \<and>
          cb_lastExecutedRef (cb_timer_fires t (throttledCallback opts now args c)) = t \<and>
          pendingArgsRef (cb_timer_fires t (throttledCallback opts now args c)) = None \<and>
          cb_timeoutRef (cb_timer_fires t (throttledCallback opts now args c)) = None))"
  apply (rule conjI; rule impI; elim conjE)
   apply (rule tv_reschedule [OF assms]; assumption)
  apply (rule cb_reschedule [OF assms]; assumption)
  done

text \<open>
  The theorem at \<open>delay = 100\<close>. With both edges on: \<open>''A''\<close> emitted at 1000, \<open>''B''\<close>
  pending since 1030 and due at 1100, \<open>''C''\<close> arriving at 1060 takes its place, still
  due at 1100, and is emitted then. With the leading edge off and a late host: \<open>''B''\<close>
  pending since 1030 is still there at 1150, where \<open>''C''\<close> arrives; the remaining delay
  is \<open>-50\<close>, and the new timer is due at 1150.
\<close>

theorem pending_trailing_rescheduled_at_boundary_witness:
  "timeoutRef (useThrottle_update \<lparr>delay = 100, leading = True, trailing = True\<rparr> 1030 ''B''
      (useThrottle_mount \<lparr>delay = 100, leading = True, trailing = True\<rparr> 1000 ''A'')) =
     Some (setTimeout ''B'' 1030 70) \<and>
   timeoutRef (useThrottle_update \<lparr>delay = 100, leading = True, trailing = True\<rparr> 1060 ''C''
     (useThrottle_update \<lparr>delay = 100, leading = True, trailing = True\<rparr> 1030 ''B''
       (useThrottle_mount \<lparr>delay = 100, leading = True, trailing = True\<rparr> 1000 ''A''))) =
     Some (setTimeout ''C'' 1060 40) \<and>
   due (setTimeout ''B'' 1030 70) = 1100 \<and>
   due (setTimeout ''C'' 1060 40) = 1100 \<and>
   throttledValue (tv_timer_fires 1100
     (useThrottle_update \<lparr>delay = 100, leading = True, trailing = True\<rparr> 1060 ''C''
       (useThrottle_update \<lparr>delay = 100, leading = True, trailing = True\<rparr> 1030 ''B''
         (useThrottle_mount \<lparr>delay = 100, leading = True, trailing = True\<rparr> 1000 ''A'')))) =
     ''C'' \<and>
   lastExecutedRef (tv_timer_fires 1100
     (useThrottle_update \<lparr>delay = 100, leading = True, trailing = True\<rparr> 1060 ''C''
       (useThrottle_update \<lparr>delay = 100, leading = True, trailing = True\<rparr> 1030 ''B''
         (useThrottle_mount \<lparr>delay = 100, leading = True, trailing = True\<rparr> 1000 ''A'')))) =
     1100 \<and>
   cb_timeoutRef (cb_run \<lparr>delay = 100, leading = True, trailing = True\<rparr>
      [Invoke 1000 ''A'', Invoke 1030 ''B''] (useThrottleCallback_init ''f'')) =
     Some (setTimeout () 1030 70) \<and>
   cb_timeoutRef (throttledCallback \<lparr>delay = 100, leading = True, trailing = True\<rparr> 1060 ''C''
      (cb_run \<lparr>delay = 100, leading = True, trailing = True\<rparr>
        [Invoke 1000 ''A'', Invoke 1030 ''B''] (useThrottleCallback_init ''f''))) =
     Some (setTimeout () 1060 40) \<and>
   calls (cb_timer_fires 1100
     (throttledCallback \<lparr>delay = 100, leading = True, trailing = True\<rparr> 1060 ''C''
       (cb_run \<lparr>delay = 100, leading = True, trailing = True\<rparr>
         [Invoke 1000 ''A'', Invoke 1030 ''B''] (useThrottleCallback_init ''f'')))) =
     [(''f'', ''A''), (''f'', ''C'')] \<and>
   timeoutRef (useThrottle_update \<lparr>delay = 100, leading = False, trailing = True\<rparr> 1150 ''C''
     (tv_run \<lparr>delay = 100, leading = False, trailing = True\<rparr> [Fires 1000, Update 1030 ''B'']
       (useThrottle_mount \<lparr>delay = 100, leading = False, trailing = True\<rparr> 1000 ''A''))) =
     Some (setTimeout ''C'' 1150 (- 50)) \<and>
   due (setTimeout ''C'' 1150 (- 50)) = 1150 \<and>
   cb_timeoutRef (throttledCallback \<lparr>delay = 100, leading = False, trailing = True\<rparr> 1150 ''C''
      (cb_run \<lparr>delay = 100, leading = False, trailing = True\<rparr>
        [Invoke 1000 ''A'', TimerFires 1000, Invoke 1030 ''B'']
        (useThrottleCallback_init ''f''))) =
     Some (setTimeout () 1150 0)"
  using
    pending_trailing_rescheduled_at_boundary
      [where opts = "\<lparr>delay = 100, leading = True, trailing = True\<rparr>"
         and s = "useThrottle_update \<lparr>delay = 100, leading = True, trailing = True\<rparr> 1030 ''B''
                   (useThrottle_mount \<lparr>delay = 100, leading = True, trailing = True\<rparr> 1000 ''A'')"
         and h = "setTimeout ''B'' 1030 70" and now = 1060 and v = "''C''" and t = 1100
         and c = "cb_run \<lparr>delay = 100, leading = True, trailing = True\<rparr>
                   [Invoke 1000 ''A'', Invoke 1030 ''B''] (useThrottleCallback_init ''f'')"
         and k = "setTimeout () 1030 70" and old = "''B''" and args = "''C''"]
    pending_trailing_rescheduled_at_boundary
      [where opts = "\<lparr>delay = 100, leading = False, trailing = True\<rparr>"
         and s = "tv_run \<lparr>delay = 100, leading = False, trailing = True\<rparr>
                   [Fires 1000, Update 1030 ''B'']
                   (useThrottle_mount \<lparr>delay = 100, leading = False, trailing = True\<rparr> 1000 ''A'')"
         and h = "setTimeout ''B'' 1030 70" and now = 1150 and v = "''C''" and t = 1150
         and c = "cb_run \<lparr>delay = 100, leading = False, trailing = True\<rparr>
                   [Invoke 1000 ''A'', TimerFires 1000, Invoke 1030 ''B'']
                   (useThrottleCallback_init ''f'')"
         and k = "setTimeout () 1030 70" and old = "''B''" and args = "''C''"]
  by (simp add: cb_scenario_defs tv_scenario_defs host_defs)

section \<open>Debounce: mount and update\<close>

lemma useDebounce_mount_eq:
  "useDebounce_mount opts now v =
     \<lparr>debouncedValue = v, isFirstCall = False,
      timer = Some (setTimeout v now (delay opts)),
      maxWaitTimer = (case maxWait opts of
                        Some m \<Rightarrow> if m \<noteq> 0 then Some (setTimeout v now m) else None
                      | None \<Rightarrow> None),
      setDebouncedValue_log = (if leading opts then [v] else [])\<rparr>"
  by (simp add: useDebounce_mount_def debounce_commit_def debounce_effect_def
      debounce_effect2_def debounce_cleanup_def useDebounce_init_def Let_def
      split: option.splits)

lemma useDebounce_update_eq:
  "\<not> isFirstCall s \<Longrightarrow>
   useDebounce_update opts now v s =
     s\<lparr>timer := Some (setTimeout v now (delay opts)),
       maxWaitTimer := (case maxWait opts of
                          Some m \<Rightarrow> if m \<noteq> 0 then Some (setTimeout v now m) else None
                        | None \<Rightarrow> None)\<rparr>"
  by (simp add: useDebounce_update_def debounce_commit_def debounce_effect_def
      debounce_effect2_def debounce_cleanup_def Let_def split: option.splits)



text \<open>
  Once mounted, no update is a leading one: it emits nothing and only re-arms the timers.
\<close>

lemma later_updates_never_leading:
  "\<not> isFirstCall s \<Longrightarrow>
   debouncedValue (useDebounce_update opts now v s) = debouncedValue s \<and>
   setDebouncedValue_log (useDebounce_update opts now v s) = setDebouncedValue_log s"
  by (simp add: useDebounce_update_eq)




section \<open>The initial value\<close>

text \<open>
  C9. Whatever the initial value \<open>v\<close> and the options, the value the Debounce hook and
  the Throttle-Value hook return is \<open>v\<close> from the first render on: at the first render,
  after the effects of the mount have run, and, as long as no update arrives, after any
  timer of the mount has run.
\<close>

theorem initial_value_is_output:
  "debouncedValue (useDebounce_init v) = v \<and>
   debouncedValue (useDebounce_mount dopts now v) = v \<and>
   debouncedValue (debounce_elapse t (useDebounce_mount dopts now v)) = v \<and>
   throttledValue (useThrottle_init v) = v \<and>
   throttledValue (useThrottle_mount topts now v) = v \<and>
   throttledValue (tv_timer_fires t (useThrottle_mount topts now v)) = v"
proof -
  have d: "debouncedValue (debounce_elapse t (useDebounce_mount dopts now v)) = v"
    by (simp add: useDebounce_mount_eq debounce_elapse_def db_timer_fires_def
        db_maxWaitTimer_fires_def quiescence_timeout_def maxWait_timeout_def setTimeout_def
        split: option.splits)
  have m: "throttledValue (useThrottle_mount topts now v) = v"
    by (simp add: useThrottle_mount_def throttle_effect_def useThrottle_init_def Let_def)
  have f: "throttledValue (tv_timer_fires t (useThrottle_mount topts now v)) = v"
    by (simp add: useThrottle_mount_def throttle_effect_def useThrottle_init_def Let_def
        tv_timer_fires_def throttle_timeout_def setTimeout_def)
  from d m f show ?thesis
    by (simp add: useDebounce_mount_eq) (simp add: useDebounce_init_def useThrottle_init_def)
qed

section \<open>Debounce: the max-wait timer\<close>

text \<open>
  Every update clears the max-wait timer together with the quiescence timer and
  registers both anew, counting from that update.
\<close>

lemma update_restarts_maxWait:
  "\<not> isFirstCall s \<Longrightarrow> maxWait opts = Some m \<Longrightarrow> m \<noteq> 0 \<Longrightarrow>
   timer (useDebounce_update opts now v s) = Some (setTimeout v now (delay opts)) \<and>
   maxWaitTimer (useDebounce_update opts now v s) = Some (setTimeout v now m)"
  by (simp add: useDebounce_update_eq)

lemma elapse_before_due:
  "timer s = Some (setTimeout v t d) \<Longrightarrow> maxWaitTimer s = Some (setTimeout v t m) \<Longrightarrow>
   t' < t + max 0 d \<Longrightarrow> t' < t + max 0 m \<Longrightarrow> debounce_elapse t' s = s"
  by (simp add: debounce_elapse_def db_timer_fires_def db_maxWaitTimer_fires_def
      can_fire_setTimeout)

text \<open>
  So a burst whose gaps stay below both \<open>delay\<close> and \<open>maxWait\<close> emits nothing, however
  long it lasts.
\<close>

lemma short_gaps_emit_nothing:
  assumes "maxWait opts = Some m" and "0 < m" and "0 < delay opts"
  shows "\<not> isFirstCall s \<Longrightarrow> timer s = Some (setTimeout v t (delay opts)) \<Longrightarrow>
         maxWaitTimer s = Some (setTimeout v t m) \<Longrightarrow>
         burst (min (delay opts) m) t es \<Longrightarrow>
         debouncedValue (debounce_run opts es s) = debouncedValue s \<and>
         setDebouncedValue_log (debounce_run opts es s) = setDebouncedValue_log s"
proof (induction es arbitrary: s v t)
  case Nil
  then show ?case by simp
next
  case (Cons e es)
  obtain t' v' where e: "e = (t', v')" by (cases e)
  from Cons.prems(4) e have gap: "t \<le> t'" "t' < t + min (delay opts) m"
    and rest: "burst (min (delay opts) m) t' es" by simp_all
  from gap assms have early: "t' < t + max 0 (delay opts)" "t' < t + max 0 m" by simp_all
  have quiet: "debounce_elapse t' s = s"
    using Cons.prems(2,3) early by (rule elapse_before_due)
  let ?s' = "useDebounce_update opts t' v' s"
  have upd: "?s' = s\<lparr>timer := Some (setTimeout v' t' (delay opts)),
                      maxWaitTimer := Some (setTimeout v' t' m)\<rparr>"
    using Cons.prems(1) assms by (simp add: useDebounce_update_eq)
  have "debouncedValue (debounce_run opts es ?s') = debouncedValue ?s' \<and>
        setDebouncedValue_log (debounce_run opts es ?s') = setDebouncedValue_log ?s'"
    using Cons.prems(1) rest by (intro Cons.IH) (simp_all add: upd)
  then show ?case by (simp add: e quiet) (simp add: upd)
qed

text \<open>
  C2 on the code: \<open>delay = 100\<close>, \<open>maxWait = 250\<close>, mounted with \<open>''init''\<close> at 0 and left
  alone until both timers of the mount have run; then a burst of seven updates, one
  every 50, from 1000 to 1300. At 1300 the burst has lasted 300, more than \<open>maxWait\<close>,
  and nothing of it has been emitted: the output is still \<open>''init''\<close>, the only calls of
  \<open>setDebouncedValue\<close> are the two of the mount's timers, and the max-wait timer now
  counts from 1300.
\<close>

theorem maxWait_burst_emits_nothing:
  "debouncedValue (debounce_run \<lparr>delay = 100, leading = False, maxWait = Some 250\<rparr>
      [(1000, ''v1''), (1050, ''v2''), (1100, ''v3''), (1150, ''v4''), (1200, ''v5''),
       (1250, ''v6''), (1300, ''v7'')]
      (useDebounce_mount \<lparr>delay = 100, leading = False, maxWait = Some 250\<rparr> 0 ''init'')) =
     ''init'' \<and>
   setDebouncedValue_log (debounce_run \<lparr>delay = 100, leading = False, maxWait = Some 250\<rparr>
      [(1000, ''v1''), (1050, ''v2''), (1100, ''v3''), (1150, ''v4''), (1200, ''v5''),
       (1250, ''v6''), (1300, ''v7'')]
      (useDebounce_mount \<lparr>delay = 100, leading = False, maxWait = Some 250\<rparr> 0 ''init'')) =
     [''init'', ''init''] \<and>
   maxWaitTimer (debounce_run \<lparr>delay = 100, leading = False, maxWait = Some 250\<rparr>
      [(1000, ''v1''), (1050, ''v2''), (1100, ''v3''), (1150, ''v4''), (1200, ''v5''),
       (1250, ''v6''), (1300, ''v7'')]
      (useDebounce_mount \<lparr>delay = 100, leading = False, maxWait = Some 250\<rparr> 0 ''init'')) =
     Some \<lparr>payload = ''v7'', set_at = 1300, wait = 250, cleared = False\<rparr>"
  by (simp add: useDebounce_mount_eq useDebounce_update_eq debounce_elapse_def
      db_timer_fires_def db_maxWaitTimer_fires_def quiescence_timeout_def
      maxWait_timeout_def can_fire_def due_def setTimeout_def)

section \<open>Negative delays\<close>

text \<open>
  Each hook accepts negative options. Debounce with \<open>delay = -5\<close> and \<open>maxWait = -7\<close>
  mounts and registers timers with exactly these waits; so does Throttle-Value with
  \<open>delay = -5\<close>; Throttle-Callback with \<open>delay = -5\<close> is constructed as with any other
  delay.
\<close>

theorem negative_delay_accepted_counterexample:
  "useDebounce_construct \<lparr>delay = - 5, leading = False, maxWait = Some (- 7)\<rparr> 1000 ''v'' =
     Some \<lparr>debouncedValue = ''v'', isFirstCall = False,
           timer = Some \<lparr>payload = ''v'', set_at = 1000, wait = - 5, cleared = False\<rparr>,
           maxWaitTimer = Some \<lparr>payload = ''v'', set_at = 1000, wait = - 7, cleared = False\<rparr>,
           setDebouncedValue_log = []\<rparr> \<and>
   useThrottle_construct \<lparr>delay = - 5, leading = False, trailing = True\<rparr> 1000 ''v'' =
     Some \<lparr>throttledValue = ''v'', lastExecutedRef = 0,
           timeoutRef = Some \<lparr>payload = ''v'', set_at = 1000, wait = - 1005, cleared = False\<rparr>,
           isFirstCallRef = False, setThrottledValue_log = []\<rparr> \<and>
   (useThrottleCallback_construct \<lparr>delay = - 5, leading = True, trailing = True\<rparr> ''f''
      :: (string, string) tc_state option) =
     Some \<lparr>isThrottled = False, cb_lastExecutedRef = 0, cb_timeoutRef = None,
           pendingArgsRef = None, callbackRef = ''f'', calls = []\<rparr>"
  by (simp add: useDebounce_construct_def useDebounce_mount_eq useThrottle_construct_def
      useThrottle_mount_def throttle_effect_def useThrottle_init_def
      useThrottleCallback_construct_def useThrottleCallback_init_def setTimeout_def)

text \<open>
  C8, as the code has it. Construction never fails, whatever the sign of \<open>delay\<close> and
  \<open>maxWait\<close>: no hook validates its options. A negative \<open>delay\<close> or \<open>maxWait\<close> of the
  Debounce gate is handed to the host as the wait of its timer, unchanged, and the
  host runs such a timer as if the wait were 0; in the Throttle-Callback gate a
  negative \<open>delay\<close> only makes every invoke with \<open>leading = true\<close>, made at or after the
  last execution, a leading one.
\<close>

theorem construction_accepts_any_delay:
  "useDebounce_construct dopts now v = Some (useDebounce_mount dopts now v) \<and>
   timer (useDebounce_mount dopts now v) = Some (setTimeout v now (delay dopts)) \<and>
   (maxWait dopts = Some m \<and> m \<noteq> 0 \<longrightarrow>
      maxWaitTimer (useDebounce_mount dopts now v) = Some (setTimeout v now m)) \<and>
   (w < 0 \<longrightarrow> due (setTimeout v now w) = now) \<and>
   useThrottle_construct topts now v = Some (useThrottle_mount topts now v) \<and>
   useThrottleCallback_construct topts f =
     Some (useThrottleCallback_init f :: ('f, 'b) tc_state) \<and>
   (delay topts < 0 \<and> leading topts \<and> cb_lastExecutedRef c \<le> now \<longrightarrow>
      calls (throttledCallback topts now args (c :: ('f, 'b) tc_state)) =
        calls c @ [(callbackRef c, args)])"
  by (simp add: useDebounce_construct_def useDebounce_mount_eq useThrottle_construct_def
      useThrottleCallback_construct_def due_setTimeout throttledCallback_def)

theorem construction_accepts_any_delay_witness:
  "useDebounce_construct \<lparr>delay = - 1, leading = True, maxWait = Some (- 2)\<rparr> 50 ''w'' =
     Some (useDebounce_mount \<lparr>delay = - 1, leading = True, maxWait = Some (- 2)\<rparr> 50 ''w'') \<and>
   maxWaitTimer (useDebounce_mount \<lparr>delay = - 1, leading = True, maxWait = Some (- 2)\<rparr> 50 ''w'') =
     Some (setTimeout ''w'' 50 (- 2)) \<and>
   due (setTimeout ''w'' 50 (- 2)) = 50 \<and>
   calls (throttledCallback \<lparr>delay = - 1, leading = True, trailing = True\<rparr> 50 ''x''
     (useThrottleCallback_init ''f'')) = [(''f'', ''x'')]"
  using construction_accepts_any_delay
    [where dopts = "\<lparr>delay = - 1, leading = True, maxWait = Some (- 2)\<rparr>" and now = 50
       and v = "''w''" and m = "- 2" and w = "- 2"
       and topts = "\<lparr>delay = - 1, leading = True, trailing = True\<rparr>" and f = "''f''"
       and c = "useThrottleCallback_init ''f''" and args = "''x''"]
  by (simp add: useThrottleCallback_init_def)

end
